theory Spec2Isabelle
  imports Complex_Main "HOL-Library.Multiset" "HOL-Library.Monad_Syntax"
begin

section \<open>Numbers\<close>

text \<open>
  The program is JavaScript; every number in it is an IEEE double. This development
  reads the program over the real numbers: \<open>+\<close>, \<open>*\<close>, \<open>sqrt\<close>, \<open>floor\<close>, \<open>cos\<close> and
  \<open>sin\<close> are the exact operations, without rounding, infinities or NaN. A value that may
  be \<open>null\<close> is a \<^typ>\<open>real option\<close>. Each call of \<open>Math.random()\<close> is an argument of
  the function that makes it: the number that call returned.
\<close>

text \<open>
  Arithmetic on \<open>null\<close>: JavaScript converts \<open>null\<close> to \<open>0\<close> before it subtracts.
\<close>

definition toNumber :: "real option \<Rightarrow> real" where
  "toNumber v = (case v of None \<Rightarrow> 0 | Some r \<Rightarrow> r)"

text \<open>
  Division. Over the reals a quotient by zero has no value, so the division of the model
  is partial: \<open>None\<close> stands for a division by zero.
\<close>

definition fdiv :: "real \<Rightarrow> real \<Rightarrow> real option" where
  "fdiv a b = (if b = 0 then None else Some (a / b))"

section \<open>The canvas and the cursor\<close>

record canvas =
  width :: real
  height :: real

text \<open>The object \<open>mouse\<close>: a closure over \<open>state\<close>, read by two getters.\<close>

record mouse =
  mouse_x :: "real option"
  mouse_y :: "real option"

definition mouse_init :: mouse where
  "mouse_init = \<lparr>mouse_x = None, mouse_y = None\<rparr>"

definition mouse_set :: "real option \<times> real option \<Rightarrow> mouse \<Rightarrow> mouse" where
  "mouse_set xy state = (case xy of (x, y) \<Rightarrow> \<lparr>mouse_x = x, mouse_y = y\<rparr>)"

definition mouse_reset :: "mouse \<Rightarrow> mouse" where
  "mouse_reset state = \<lparr>mouse_x = None, mouse_y = None\<rparr>"

text \<open>
  The two listeners on the canvas. A \<open>mousemove\<close> event carries \<open>clientX\<close> and
  \<open>clientY\<close>, both numbers.
\<close>

datatype pointer_event = MouseMove real real | MouseLeave

fun on_pointer :: "mouse \<Rightarrow> pointer_event \<Rightarrow> mouse" where
  "on_pointer state (MouseMove clientX clientY) = mouse_set (Some clientX, Some clientY) state"
| "on_pointer state MouseLeave = mouse_reset state"

definition pointer_run :: "pointer_event list \<Rightarrow> mouse" where
  "pointer_run evs = foldl on_pointer mouse_init evs"

section \<open>adjustParticleCount\<close>

definition heightConditions :: "real list" where
  "heightConditions = [200, 300, 400, 500, 600]"

definition widthConditions :: "real list" where
  "widthConditions = [450, 600, 900, 1200, 1600]"

definition particlesForHeight :: "nat list" where
  "particlesForHeight = [40, 60, 70, 90, 110]"

definition particlesForWidth :: "nat list" where
  "particlesForWidth = [40, 50, 70, 90, 110]"

text \<open>
  The two \<open>for\<close> loops, each over the indices of its table, each left by \<open>break\<close> at the
  first index whose condition holds. The argument \<open>is\<close> is the list of indices still to
  visit.
\<close>

fun height_loop :: "canvas \<Rightarrow> nat list \<Rightarrow> nat \<Rightarrow> nat" where
  "height_loop cv [] numParticles = numParticles"
| "height_loop cv (i # is) numParticles =
     (if height cv < heightConditions ! i then particlesForHeight ! i
      else height_loop cv is numParticles)"

fun width_loop :: "canvas \<Rightarrow> nat list \<Rightarrow> nat \<Rightarrow> nat" where
  "width_loop cv [] numParticles = numParticles"
| "width_loop cv (i # is) numParticles =
     (if width cv < widthConditions ! i then min numParticles (particlesForWidth ! i)
      else width_loop cv is numParticles)"

definition adjustParticleCount :: "canvas \<Rightarrow> nat" where
  "adjustParticleCount cv =
     (let numParticles = 130;
          numParticles = height_loop cv [0..<length heightConditions] numParticles;
          numParticles = width_loop cv [0..<length widthConditions] numParticles
      in numParticles)"

text \<open>The two tables as the specification words them.\<close>

definition height_candidate :: "real \<Rightarrow> nat" where
  "height_candidate h =
     (if h < 200 then 40 else if h < 300 then 60 else if h < 400 then 70
      else if h < 500 then 90 else if h < 600 then 110 else 130)"

definition width_clamp :: "real \<Rightarrow> nat \<Rightarrow> nat" where
  "width_clamp w c =
     (if w < 450 then min c 40 else if w < 600 then min c 50 else if w < 900 then min c 70
      else if w < 1200 then min c 90 else if w < 1600 then min c 110 else c)"

section \<open>Particle\<close>

text \<open>
  The fields of a \<open>Particle\<close>. The fields \<open>x\<close>, \<open>y\<close> and \<open>size\<close> of the source are
  \<open>x_p\<close>, \<open>y_p\<close> and \<open>size_p\<close> here. The trail is created empty and is never read or
  written again.
\<close>

record particle =
  isFirework :: bool
  x_p :: real
  y_p :: real
  vx :: real
  vy :: real
  size_p :: real
  gray :: real
  alpha :: real
  sizeDirection :: real
  trail :: "real list"

text \<open>
  The six calls of \<open>Math.random()\<close> in the constructor, in the order in which they are
  evaluated: for \<open>baseSpeed\<close>, inside \<open>Math.cos\<close>, inside \<open>Math.sin\<close>, for \<open>size\<close>, for
  \<open>gray\<close> and for \<open>sizeDirection\<close>.
\<close>

record draws =
  r_speed :: real
  r_cos :: real
  r_sin :: real
  r_size :: real
  r_gray :: real
  r_dir :: real

definition new_Particle :: "real \<Rightarrow> real \<Rightarrow> bool \<Rightarrow> draws \<Rightarrow> particle" where
  "new_Particle x y isFw d =
     (let baseSpeed = (if isFw then r_speed d * 2 + 1 else r_speed d * 0.5 + 0.3)
      in \<lparr>isFirework = isFw,
          x_p = x,
          y_p = y,
          vx = cos (r_cos d * pi * 2) * baseSpeed,
          vy = sin (r_sin d * pi * 2) * baseSpeed,
          size_p = (if isFw then r_size d * 2 + 2 else r_size d * 3 + 1),
          gray = r_gray d * 255,
          alpha = 1,
          sizeDirection = (if r_dir d < 0.5 then - 1 else 1),
          trail = []\<rparr>)"

text \<open>
  \<open>update\<close>, in the order of the source. \<open>cursor_dist\<close> is the constant \<open>dist\<close> of its
  first line. \<open>steer\<close> is the branch on \<open>isFirework\<close>: forces, drift and damping for an
  ambient particle, the fading of a firework. \<open>move\<close> adds the velocity to the position,
  \<open>bounce\<close> is the two tests against the edges of the canvas, \<open>pulse\<close> the two lines on
  \<open>size\<close>. The global \<open>autoDrift\<close> is an argument, and \<open>rnd\<close> holds the two numbers
  that \<open>Math.random()\<close> returns in the drift.
\<close>

definition cursor_dist :: "mouse \<Rightarrow> particle \<Rightarrow> real" where
  "cursor_dist m p =
     (if mouse_x m \<noteq> None
      then (toNumber (mouse_x m) - x_p p) ^ 2 + (toNumber (mouse_y m) - y_p p) ^ 2
      else 0)"

definition steer :: "bool \<Rightarrow> mouse \<Rightarrow> real \<times> real \<Rightarrow> particle \<Rightarrow> particle option" where
  "steer autoDrift m rnd p =
     (let dist = cursor_dist m p in
      if \<not> isFirework p then
        do {
          force \<leftarrow> (if dist \<noteq> 0 \<and> dist < 22500 then fdiv (22500 - dist) 22500 else Some 0);
          let p = (if mouse_x m = None \<and> autoDrift
                   then p\<lparr>vx := vx p + (fst rnd - 0.5) * 0.03,
                          vy := vy p + (snd rnd - 0.5) * 0.03\<rparr>
                   else p);
          p \<leftarrow> (if dist \<noteq> 0 then
                 do {
                   let sqrtDist = sqrt dist;
                   ux \<leftarrow> fdiv (toNumber (mouse_x m) - x_p p) sqrtDist;
                   uy \<leftarrow> fdiv (toNumber (mouse_y m) - y_p p) sqrtDist;
                   Some (p\<lparr>vx := vx p + ux * force * 0.1, vy := vy p + uy * force * 0.1\<rparr>)
                 }
               else Some p);
          Some (p\<lparr>vx := vx p * (if mouse_x m \<noteq> None then 0.99 else 0.998),
                  vy := vy p * (if mouse_y m \<noteq> None then 0.99 else 0.998)\<rparr>)
        }
      else Some (p\<lparr>alpha := alpha p - 0.02\<rparr>))"

definition move :: "particle \<Rightarrow> particle" where
  "move p = p\<lparr>x_p := x_p p + vx p, y_p := y_p p + vy p\<rparr>"

definition bounce :: "canvas \<Rightarrow> particle \<Rightarrow> particle" where
  "bounce cv p =
     (let p = (if x_p p \<le> 0 \<or> x_p p \<ge> width cv - 1 then p\<lparr>vx := vx p * (- 0.9)\<rparr> else p);
          p = (if y_p p < 0 \<or> y_p p > height cv then p\<lparr>vy := vy p * (- 0.9)\<rparr> else p)
      in p)"

definition pulse :: "particle \<Rightarrow> particle" where
  "pulse p =
     (let p = p\<lparr>size_p := size_p p + sizeDirection p * 0.1\<rparr>
      in if size_p p > 4 \<or> size_p p < 1 then p\<lparr>sizeDirection := sizeDirection p * (- 1)\<rparr>
         else p)"

definition update :: "canvas \<Rightarrow> bool \<Rightarrow> mouse \<Rightarrow> real \<times> real \<Rightarrow> particle \<Rightarrow> particle option" where
  "update cv autoDrift m rnd p =
     do {
       p \<leftarrow> steer autoDrift m rnd p;
       Some (pulse (bounce cv (move p)))
     }"

definition isDead :: "particle \<Rightarrow> bool" where
  "isDead p = (isFirework p \<and> alpha p \<le> 0)"

text \<open>
  A run of \<open>update\<close> calls on one particle. Each call has its own canvas size, drift
  switch, cursor and random numbers, since all four can change between two frames.
\<close>

fun updates :: "(canvas \<times> bool \<times> mouse \<times> (real \<times> real)) list \<Rightarrow> particle \<Rightarrow> particle option" where
  "updates [] p = Some p"
| "updates ((cv, autoDrift, m, rnd) # fs) p = update cv autoDrift m rnd p \<bind> updates fs"

text \<open>The interval the specification gives for \<open>size\<close>, and the one the code keeps.\<close>

definition size_within :: "real \<Rightarrow> real \<Rightarrow> particle \<Rightarrow> bool" where
  "size_within lo hi p = (lo \<le> size_p p \<and> size_p p \<le> hi)"

section \<open>connectParticles\<close>

text \<open>
  The array \<open>particles\<close> is a list, and a particle object is known by its index in it:
  two particles can hold the same numbers and still be two objects, and \<open>neighbor !== p\<close>
  compares objects. A bucket of the grid holds indices. The key of a cell, the string
  \<open>`${a},${b}`\<close> of two integers, is the pair of the two integers. A stroke is one run
  of \<open>beginPath\<close>, \<open>moveTo\<close>, \<open>lineTo\<close>, \<open>stroke\<close>: from the particle \<open>from_i\<close> to the
  particle \<open>to_i\<close>, in the colour \<open>rgba(200, 200, 200, stroke_alpha)\<close>. The result of
  \<open>connectParticles\<close> is the list of the strokes in the order they are drawn.
\<close>

record stroke =
  from_i :: nat
  to_i :: nat
  stroke_alpha :: real

type_synonym grid = "int \<times> int \<Rightarrow> nat list option"

definition gridSize :: real where
  "gridSize = 120"

definition grid_key :: "particle \<Rightarrow> int \<times> int" where
  "grid_key p = (\<lfloor>x_p p / gridSize\<rfloor>, \<lfloor>y_p p / gridSize\<rfloor>)"

definition grid_put :: "particle list \<Rightarrow> grid \<Rightarrow> nat \<Rightarrow> grid" where
  "grid_put particles grid i =
     (let key = grid_key (particles ! i);
          grid = (if grid key = None then grid(key \<mapsto> []) else grid)
      in case grid key of
           Some bucket \<Rightarrow> grid(key \<mapsto> bucket @ [i])
         | None \<Rightarrow> grid)"

definition build_grid :: "particle list \<Rightarrow> grid" where
  "build_grid particles = foldl (grid_put particles) Map.empty [0..<length particles]"

definition visit :: "particle list \<Rightarrow> nat \<Rightarrow> nat \<Rightarrow> stroke list" where
  "visit particles i j =
     (if j \<noteq> i then
        (let diffX = x_p (particles ! j) - x_p (particles ! i);
             diffY = y_p (particles ! j) - y_p (particles ! i);
             dist = diffX * diffX + diffY * diffY
         in if dist < 10000
            then [\<lparr>from_i = i, to_i = j, stroke_alpha = 1 - sqrt dist / 100\<rparr>]
            else [])
      else [])"

definition scan_cell :: "particle list \<Rightarrow> grid \<Rightarrow> nat \<Rightarrow> int \<times> int \<Rightarrow> stroke list" where
  "scan_cell particles grid i key =
     (case grid key of
        None \<Rightarrow> []
      | Some bucket \<Rightarrow> concat (map (visit particles i) bucket))"

definition scan_around :: "particle list \<Rightarrow> grid \<Rightarrow> nat \<Rightarrow> stroke list" where
  "scan_around particles grid i =
     (let gridX = \<lfloor>x_p (particles ! i) / gridSize\<rfloor>;
          gridY = \<lfloor>y_p (particles ! i) / gridSize\<rfloor>
      in concat (map (\<lambda>dx.
           concat (map (\<lambda>dy. scan_cell particles grid i (gridX + dx, gridY + dy))
             [- 1, 0, 1]))
           [- 1, 0, 1]))"

definition connectParticles :: "particle list \<Rightarrow> stroke list" where
  "connectParticles particles =
     (let grid = build_grid particles
      in concat (map (scan_around particles grid) [0..<length particles]))"

text \<open>
  The scan the specification compares it with: every ordered pair of two different
  particles, in the order of the array, a stroke for each pair less than 100 apart.
\<close>

definition sq_dist :: "particle \<Rightarrow> particle \<Rightarrow> real" where
  "sq_dist p q = (x_p q - x_p p) * (x_p q - x_p p) + (y_p q - y_p p) * (y_p q - y_p p)"

definition naive_links :: "particle list \<Rightarrow> stroke list" where
  "naive_links particles =
     [\<lparr>from_i = i, to_i = j,
        stroke_alpha = 1 - sqrt (sq_dist (particles ! i) (particles ! j)) / 100\<rparr>.
      i \<leftarrow> [0..<length particles], j \<leftarrow> [0..<length particles],
      i \<noteq> j, sq_dist (particles ! i) (particles ! j) < 10000]"

text \<open>The strokes between two given particles, in either direction.\<close>

definition joins :: "nat \<Rightarrow> nat \<Rightarrow> stroke \<Rightarrow> bool" where
  "joins i j l = ((from_i l = i \<and> to_i l = j) \<or> (from_i l = j \<and> to_i l = i))"

text \<open>A particle at rest at a given place, for the examples.\<close>

definition at_rest :: "real \<Rightarrow> real \<Rightarrow> particle" where
  "at_rest x y =
     \<lparr>isFirework = False, x_p = x, y_p = y, vx = 0, vy = 0, size_p = 2, gray = 0,
      alpha = 1, sizeDirection = 1, trail = []\<rparr>"

section \<open>Auxiliary notions of the proofs\<close>

text \<open>
  What \<open>update\<close> keeps true of \<open>size\<close> and \<open>sizeDirection\<close>: the direction is one of
  the two signs, the size is at most one step outside of the interval from 1 to 4, and
  outside of it the direction points back.
\<close>

definition pulse_inv :: "particle \<Rightarrow> bool" where
  "pulse_inv p =
     ((sizeDirection p = 1 \<or> sizeDirection p = - 1) \<and> 9 / 10 \<le> size_p p \<and> size_p p \<le> 41 / 10
      \<and> (if size_p p > 4 then sizeDirection p = - 1 else True)
      \<and> (if size_p p < 1 then sizeDirection p = 1 else True))"

text \<open>Inputs of the examples.\<close>

definition near_four :: draws where
  "near_four = \<lparr>r_speed = 0, r_cos = 0, r_sin = 0, r_size = 99 / 100, r_gray = 0, r_dir = 1 / 2\<rparr>"

definition square :: canvas where
  "square = \<lparr>width = 100, height = 100\<rparr>"

definition spark :: particle where
  "spark = new_Particle 10 10 True near_four"

definition mote :: particle where
  "mote = new_Particle 10 10 False near_four"

definition idle :: "canvas \<times> bool \<times> mouse \<times> (real \<times> real)" where
  "idle = (square, True, mouse_init, (1 / 2, 1 / 2))"

definition sinking :: particle where
  "sinking =
     \<lparr>isFirework = False, x_p = 50, y_p = 499 / 500, vx = 0, vy = - 1, size_p = 2, gray = 0,
      alpha = 1, sizeDirection = 1, trail = []\<rparr>"

definition skew :: draws where
  "skew = \<lparr>r_speed = 9 / 10, r_cos = 0, r_sin = 1 / 4, r_size = 0, r_gray = 0, r_dir = 0\<rparr>"

text \<open>
  The bucket that the grid holds for a key once the first \<open>k\<close> particles are in it, and
  the nine keys that the scan around a particle looks up, in the order of its two loops.
\<close>

definition bucket_of :: "particle list \<Rightarrow> nat \<Rightarrow> int \<times> int \<Rightarrow> nat list" where
  "bucket_of particles k key = filter (\<lambda>j. grid_key (particles ! j) = key) [0..<k]"

definition cells_around :: "particle \<Rightarrow> (int \<times> int) list" where
  "cells_around p =
     (let gridX = \<lfloor>x_p p / gridSize\<rfloor>; gridY = \<lfloor>y_p p / gridSize\<rfloor>
      in [(gridX - 1, gridY - 1), (gridX - 1, gridY), (gridX - 1, gridY + 1),
          (gridX, gridY - 1), (gridX, gridY), (gridX, gridY + 1),
          (gridX + 1, gridY - 1), (gridX + 1, gridY), (gridX + 1, gridY + 1)])"

definition two_near :: "particle list" where
  "two_near = [at_rest 0 0, at_rest 50 0]"

definition two_far :: "particle list" where
  "two_far = [at_rest 0 0, at_rest 150 0]"

section \<open>Theorems\<close>

subsection \<open>The number of particles\<close>

lemma height_loop_table:
  "height_loop cv [0..<length heightConditions] 130 = height_candidate (height cv)"
  by (simp add: heightConditions_def particlesForHeight_def height_candidate_def upt_rec)

lemma width_loop_table:
  "width_loop cv [0..<length widthConditions] c = width_clamp (width cv) c"
  by (simp add: widthConditions_def particlesForWidth_def width_clamp_def upt_rec)

text \<open>
  C1. For every width and height the particle count is the candidate of the height table
  (40, 60, 70, 90, 110 below 200, 300, 400, 500, 600, otherwise 130; the first threshold
  the height is strictly below wins), clamped by the minimum with the entry of the width
  table (40, 50, 70, 90, 110 below 450, 600, 900, 1200, 1600; unchanged from width 1600
  on). Height 150 with width 300 gives 40, height 250 with width 800 gives 60.
\<close>

theorem adjustParticleCount_table:
  "adjustParticleCount \<lparr>width = w, height = h\<rparr> = width_clamp w (height_candidate h)
   \<and> adjustParticleCount \<lparr>width = 300, height = 150\<rparr> = 40
   \<and> adjustParticleCount \<lparr>width = 800, height = 250\<rparr> = 60"
  by (simp add: adjustParticleCount_def height_loop_table width_loop_table
      width_clamp_def height_candidate_def)

subsection \<open>The cursor\<close>

lemma pointer_run_snoc: "pointer_run (evs @ [e]) = on_pointer (pointer_run evs) e"
  by (simp add: pointer_run_def)

lemma on_pointer_both:
  "(mouse_x (on_pointer m e) = None) = (mouse_y (on_pointer m e) = None)"
  by (cases e) (simp_all add: mouse_set_def mouse_reset_def)

text \<open>
  C10. After every sequence of pointer events, starting from the initial cursor, the x
  coordinate of the cursor is null exactly when its y coordinate is: \<open>set\<close> replaces the
  whole state by the pair it is given, whatever the state was, \<open>reset\<close> clears both
  coordinates, and the \<open>mousemove\<close> listener gives \<open>set\<close> two numbers.
\<close>

theorem mouse_null_together:
  "(mouse_x (pointer_run evs) = None) = (mouse_y (pointer_run evs) = None)
   \<and> mouse_set (a, b) m = \<lparr>mouse_x = a, mouse_y = b\<rparr>
   \<and> mouse_reset m = \<lparr>mouse_x = None, mouse_y = None\<rparr>
   \<and> on_pointer m (MouseMove cx cy) = \<lparr>mouse_x = Some cx, mouse_y = Some cy\<rparr>"
proof -
  have "(mouse_x (pointer_run evs) = None) = (mouse_y (pointer_run evs) = None)"
  proof (induction evs rule: rev_induct)
    case Nil
    show ?case by (simp add: pointer_run_def mouse_init_def)
  next
    case (snoc e evs)
    show ?case unfolding pointer_run_snoc by (rule on_pointer_both)
  qed
  then show ?thesis by (simp add: mouse_set_def mouse_reset_def)
qed

subsection \<open>One call of update\<close>

lemma steer_Some: "\<exists>q. steer autoDrift m rnd p = Some q"
proof -
  have "sqrt (cursor_dist m p) \<noteq> 0" if "cursor_dist m p \<noteq> 0"
    using that by simp
  then show ?thesis
    by (simp add: steer_def fdiv_def Let_def)
qed

lemma steer_frame:
  assumes "steer autoDrift m rnd p = Some q"
  shows "isFirework q = isFirework p" and "x_p q = x_p p" and "y_p q = y_p p"
    and "size_p q = size_p p" and "sizeDirection q = sizeDirection p"
    and "alpha q = (if isFirework p then alpha p - 0.02 else alpha p)"
  using assms
  by (auto simp: steer_def fdiv_def Let_def split: if_splits bind_splits)

lemma update_Some: "\<exists>p'. update cv autoDrift m rnd p = Some p'"
  using steer_Some [of autoDrift m rnd p] by (auto simp: update_def)

lemma update_steer:
  "update cv autoDrift m rnd p = Some p' \<longleftrightarrow>
   (\<exists>q. steer autoDrift m rnd p = Some q \<and> p' = pulse (bounce cv (move q)))"
  by (auto simp: update_def split: bind_splits)

lemma move_frame:
  "isFirework (move q) = isFirework q" "alpha (move q) = alpha q"
  "size_p (move q) = size_p q" "sizeDirection (move q) = sizeDirection q"
  "vx (move q) = vx q" "vy (move q) = vy q"
  "x_p (move q) = x_p q + vx q" "y_p (move q) = y_p q + vy q"
  by (simp_all add: move_def)

lemma bounce_frame:
  "isFirework (bounce cv q) = isFirework q" "alpha (bounce cv q) = alpha q"
  "size_p (bounce cv q) = size_p q" "sizeDirection (bounce cv q) = sizeDirection q"
  "x_p (bounce cv q) = x_p q" "y_p (bounce cv q) = y_p q"
  by (simp_all add: bounce_def Let_def)

lemma bounce_velocity:
  "vx (bounce cv q) = (if x_p q \<le> 0 \<or> x_p q \<ge> width cv - 1 then vx q * (- 0.9) else vx q)"
  "vy (bounce cv q) = (if y_p q < 0 \<or> y_p q > height cv then vy q * (- 0.9) else vy q)"
  by (simp_all add: bounce_def Let_def)

lemma pulse_frame:
  "isFirework (pulse q) = isFirework q" "alpha (pulse q) = alpha q"
  "x_p (pulse q) = x_p q" "y_p (pulse q) = y_p q"
  "vx (pulse q) = vx q" "vy (pulse q) = vy q"
  by (simp_all add: pulse_def Let_def)

lemma pulse_size:
  "size_p (pulse q) = size_p q + sizeDirection q * 0.1"
  "sizeDirection (pulse q) =
     (if size_p q + sizeDirection q * 0.1 > 4 \<or> size_p q + sizeDirection q * 0.1 < 1
      then - sizeDirection q else sizeDirection q)"
  by (simp_all add: pulse_def Let_def)

lemma update_frame:
  assumes "update cv autoDrift m rnd p = Some p'"
  shows "isFirework p' = isFirework p"
    and "alpha p' = (if isFirework p then alpha p - 0.02 else alpha p)"
    and "size_p p' = size_p p + sizeDirection p * 0.1"
    and "sizeDirection p' =
       (if size_p p + sizeDirection p * 0.1 > 4 \<or> size_p p + sizeDirection p * 0.1 < 1
        then - sizeDirection p else sizeDirection p)"
proof -
  from assms obtain q where q: "steer autoDrift m rnd p = Some q"
    and p': "p' = pulse (bounce cv (move q))"
    by (auto simp: update_steer)
  show "isFirework p' = isFirework p"
    by (simp add: p' pulse_frame bounce_frame move_frame steer_frame(1) [OF q])
  show "alpha p' = (if isFirework p then alpha p - 0.02 else alpha p)"
    by (simp add: p' pulse_frame bounce_frame move_frame steer_frame(6) [OF q])
  show "size_p p' = size_p p + sizeDirection p * 0.1"
    by (simp add: p' pulse_size bounce_frame move_frame steer_frame(4,5) [OF q])
  show "sizeDirection p' =
       (if size_p p + sizeDirection p * 0.1 > 4 \<or> size_p p + sizeDirection p * 0.1 < 1
        then - sizeDirection p else sizeDirection p)"
    by (simp add: p' pulse_size bounce_frame move_frame steer_frame(4,5) [OF q])
qed

subsection \<open>The size of a particle\<close>

lemma pulse_inv_update:
  assumes "pulse_inv p" and "update cv autoDrift m rnd p = Some p'"
  shows "pulse_inv p'"
proof -
  note f = update_frame(3,4) [OF assms(2)]
  from assms(1) consider (up) "sizeDirection p = 1" "9 / 10 \<le> size_p p" "size_p p \<le> 4"
    | (down) "sizeDirection p = - 1" "1 \<le> size_p p" "size_p p \<le> 41 / 10"
    by (auto simp: pulse_inv_def split: if_splits)
  then show ?thesis
  proof cases
    case up
    then show ?thesis by (simp add: pulse_inv_def f)
  next
    case down
    then show ?thesis by (simp add: pulse_inv_def f)
  qed
qed

subsection \<open>Runs of update\<close>

lemma updates_Some: "\<exists>p'. updates fs p = Some p'"
proof (induction fs arbitrary: p)
  case Nil
  show ?case by simp
next
  case (Cons f fs)
  obtain cv ad m rnd where f: "f = (cv, ad, m, rnd)" by (cases f) auto
  obtain q where "update cv ad m rnd p = Some q" using update_Some by blast
  with Cons [of q] show ?case by (simp add: f)
qed

lemma updates_induct:
  assumes "updates fs p = Some p'" and "P p"
    and "\<And>cv ad m rnd a b. P a \<Longrightarrow> update cv ad m rnd a = Some b \<Longrightarrow> P b"
  shows "P p'"
  using assms(1,2)
proof (induction fs arbitrary: p)
  case Nil
  then show ?case by simp
next
  case (Cons f fs)
  obtain cv ad m rnd where f: "f = (cv, ad, m, rnd)" by (cases f) auto
  from Cons.prems(1) obtain q where q: "update cv ad m rnd p = Some q" and r: "updates fs q = Some p'"
    by (auto simp: f split: bind_splits)
  from assms(3) [OF Cons.prems(2) q] have "P q" .
  from Cons.IH [OF r this] show ?case .
qed

lemma updates_alpha:
  assumes "updates fs p = Some p'"
  shows "isFirework p' = isFirework p \<and>
         alpha p' = (if isFirework p then alpha p - 0.02 * real (length fs) else alpha p)"
  using assms
proof (induction fs arbitrary: p)
  case Nil
  then show ?case by simp
next
  case (Cons f fs)
  obtain cv ad m rnd where f: "f = (cv, ad, m, rnd)" by (cases f) auto
  from Cons.prems(1) obtain q where q: "update cv ad m rnd p = Some q" and r: "updates fs q = Some p'"
    by (auto simp: f split: bind_splits)
  from Cons.IH [OF r] update_frame(1,2) [OF q] show ?case
    by (simp add: algebra_simps)
qed

lemma new_Particle_fields:
  "isFirework (new_Particle x y fw d) = fw" "alpha (new_Particle x y fw d) = 1"
  "sizeDirection (new_Particle x y fw d) = (if r_dir d < 0.5 then - 1 else 1)"
  "size_p (new_Particle x y fw d) = (if fw then r_size d * 2 + 2 else r_size d * 3 + 1)"
  by (simp_all add: new_Particle_def Let_def)

text \<open>
  C4, as the code has it. For every ambient particle, made by the constructor with a
  random number from 0 up to 1 for its size, every run of \<open>update\<close> calls returns, and
  after it \<open>0.9 \<le> size \<le> 4.1\<close>. The direction is reversed by the step that takes the
  size above 4 or below 1, after that step has been added, so the size leaves the
  interval from 1 to 4 by up to one step of 0.1.
\<close>

theorem size_overshoot_bounded:
  assumes "0 \<le> r_size d" and "r_size d < 1"
  shows "\<exists>p'. updates fs (new_Particle x y False d) = Some p' \<and> size_within (9 / 10) (41 / 10) p'"
proof -
  obtain p' where p': "updates fs (new_Particle x y False d) = Some p'"
    using updates_Some by blast
  have "pulse_inv (new_Particle x y False d)"
    using assms by (simp add: pulse_inv_def new_Particle_fields)
  with p' have "pulse_inv p'"
    by (rule updates_induct) (rule pulse_inv_update)
  then have "size_within (9 / 10) (41 / 10) p'"
    by (simp add: pulse_inv_def size_within_def)
  with p' show ?thesis by blast
qed

text \<open>
  The claim as stated fails: an ambient particle made with size 3.97 and growing has
  size 4.07 after its first \<open>update\<close>.
\<close>

theorem size_bound_counterexample:
  "map_option (size_within 1 4)
     (update square True mouse_init (0, 0) (new_Particle 0 0 False near_four)) = Some False"
  by (simp add: update_def steer_def cursor_dist_def mouse_init_def new_Particle_def move_def
      bounce_def pulse_def fdiv_def Let_def near_four_def square_def size_within_def)

theorem size_overshoot_bounded_witness:
  "(0::real) \<le> r_size near_four \<and> r_size near_four < 1 \<and>
   (\<exists>p'. updates [(square, True, mouse_init, (0, 0))] (new_Particle 0 0 False near_four) = Some p'
      \<and> size_within (9 / 10) (41 / 10) p')"
proof -
  have a: "0 \<le> r_size near_four" and b: "r_size near_four < 1"
    by (simp_all add: near_four_def)
  from size_overshoot_bounded [OF a b] a b show ?thesis by blast
qed

subsection \<open>Fading and death\<close>

text \<open>
  C5. One \<open>update\<close> of a firework particle takes exactly 0.02 from its alpha, so alpha
  never grows. \<open>isDead\<close> holds exactly of a firework particle with alpha at most 0. A
  firework particle that starts with alpha 1 is dead after a run of \<open>update\<close> calls
  exactly when the run has 50 calls or more, so the 50th call is the first after which
  it is dead (in exact arithmetic). An ambient particle is not dead, before or after
  any run of calls.
\<close>

theorem firework_fades:
  "(isFirework p \<longrightarrow>
      (\<exists>p'. update cv autoDrift m rnd p = Some p' \<and> alpha p' = alpha p - 0.02 \<and> alpha p' \<le> alpha p))
   \<and> (isDead p \<longleftrightarrow> isFirework p \<and> alpha p \<le> 0)
   \<and> (isFirework p \<and> alpha p = 1 \<longrightarrow>
      (\<exists>p'. updates fs p = Some p' \<and> (isDead p' \<longleftrightarrow> 50 \<le> length fs)))
   \<and> (\<not> isFirework p \<longrightarrow>
      \<not> isDead p \<and> (\<exists>p'. updates fs p = Some p' \<and> \<not> isDead p'))"
proof -
  obtain p1 where p1: "update cv autoDrift m rnd p = Some p1"
    using update_Some by blast
  obtain pn where pn: "updates fs p = Some pn"
    using updates_Some by blast
  have one: "alpha p1 = alpha p - 0.02 \<and> alpha p1 \<le> alpha p" if "isFirework p"
    using that update_frame(2) [OF p1] by simp
  have many: "isDead pn \<longleftrightarrow> 50 \<le> length fs" if "isFirework p" and "alpha p = 1"
  proof -
    from updates_alpha [OF pn] that
    have "isFirework pn" and "alpha pn = 1 - 0.02 * real (length fs)" by simp_all
    then show ?thesis by (simp add: isDead_def)
  qed
  have amb: "\<not> isDead pn" if "\<not> isFirework p"
    using updates_alpha [OF pn] that by (simp add: isDead_def)
  show ?thesis
    using p1 pn one many amb by (simp add: isDead_def)
qed

theorem firework_fades_witness:
  "isFirework spark \<and> alpha spark = 1 \<and> \<not> isFirework mote
   \<and> map_option isDead (updates (replicate 50 idle) spark) = Some True
   \<and> map_option isDead (updates (replicate 49 idle) spark) = Some False
   \<and> map_option isDead (updates (replicate 50 idle) mote) = Some False"
proof -
  have s: "isFirework spark" "alpha spark = 1" and m: "\<not> isFirework mote"
    by (simp_all add: spark_def mote_def new_Particle_fields)
  from firework_fades [of spark square True mouse_init "(0, 0)" "replicate 50 idle"] s
  have a: "map_option isDead (updates (replicate 50 idle) spark) = Some True" by auto
  from firework_fades [of spark square True mouse_init "(0, 0)" "replicate 49 idle"] s
  have b: "map_option isDead (updates (replicate 49 idle) spark) = Some False" by auto
  from firework_fades [of mote square True mouse_init "(0, 0)" "replicate 50 idle"] m
  have c: "map_option isDead (updates (replicate 50 idle) mote) = Some False" by auto
  from s m a b c show ?thesis by simp
qed

text \<open>
  C9. \<open>update\<close> leaves the alpha of an ambient particle as it is, in one call and in
  every run of calls; an ambient particle made by the constructor has alpha 1 after
  every run.
\<close>

theorem ambient_alpha_kept:
  "(\<not> isFirework p \<longrightarrow>
      (\<exists>p'. update cv autoDrift m rnd p = Some p' \<and> alpha p' = alpha p)
      \<and> (\<exists>p'. updates fs p = Some p' \<and> alpha p' = alpha p))
   \<and> (\<exists>p'. updates fs (new_Particle x y False d) = Some p' \<and> alpha p' = 1)"
proof -
  obtain p1 where p1: "update cv autoDrift m rnd p = Some p1"
    using update_Some by blast
  obtain pn where pn: "updates fs p = Some pn"
    using updates_Some by blast
  obtain qn where qn: "updates fs (new_Particle x y False d) = Some qn"
    using updates_Some by blast
  have "alpha qn = 1"
    using updates_alpha [OF qn] by (simp add: new_Particle_fields)
  with qn p1 pn update_frame(2) [OF p1] updates_alpha [OF pn] show ?thesis
    by simp
qed

theorem ambient_alpha_kept_witness:
  "\<not> isFirework mote
   \<and> map_option alpha (update square True mouse_init (0, 0) mote) = Some 1
   \<and> map_option alpha (updates (replicate 50 idle) mote) = Some 1"
proof -
  have m: "\<not> isFirework mote" and a: "alpha mote = 1"
    by (simp_all add: mote_def new_Particle_fields)
  from ambient_alpha_kept [of mote square True mouse_init "(0, 0)" "replicate 50 idle"] m a
  show ?thesis by auto
qed

subsection \<open>Division\<close>

text \<open>
  C7. \<open>update\<close> returns a particle for every canvas, cursor and particle: none of
  its divisions is by zero. The squared distance is 0 when the x coordinate of the
  cursor is null, and the quotient by its square root, the one division whose divisor
  is not a literal, fails for the squared distance 0 and for no other.
\<close>

theorem update_total:
  "(\<exists>p'. update cv autoDrift m rnd p = Some p')
   \<and> cursor_dist \<lparr>mouse_x = None, mouse_y = my\<rparr> p = 0
   \<and> (fdiv a (sqrt (cursor_dist m p)) = None \<longleftrightarrow> cursor_dist m p = 0)"
  using update_Some [of cv autoDrift m rnd p]
  by (simp add: cursor_dist_def fdiv_def)

subsection \<open>The edges of the canvas\<close>

text \<open>
  C6, as the code has it. In every \<open>update\<close>, with \<open>q\<close> the particle after the
  forces: the position is moved by the velocity of \<open>q\<close>; then \<open>vx\<close> is multiplied by
  \<open>-0.9\<close> if \<open>x \<le> 0\<close> or \<open>x \<ge> width - 1\<close>, and left alone otherwise; and \<open>vy\<close> is
  multiplied by \<open>-0.9\<close> if \<open>y < 0\<close> or \<open>y > height\<close>, and left alone otherwise. The
  two tests are independent.
\<close>

theorem bounce_rule:
  "\<exists>q p'. steer autoDrift m rnd p = Some q \<and> update cv autoDrift m rnd p = Some p'
     \<and> x_p p' = x_p q + vx q \<and> y_p p' = y_p q + vy q
     \<and> vx p' = (if x_p p' \<le> 0 \<or> x_p p' \<ge> width cv - 1 then vx q * (- 0.9) else vx q)
     \<and> vy p' = (if y_p p' < 0 \<or> y_p p' > height cv then vy q * (- 0.9) else vy q)"
proof -
  obtain q where q: "steer autoDrift m rnd p = Some q"
    using steer_Some by blast
  define p' where "p' = pulse (bounce cv (move q))"
  have u: "update cv autoDrift m rnd p = Some p'"
    by (simp add: update_steer q p'_def)
  have "x_p p' = x_p q + vx q" "y_p p' = y_p q + vy q"
    by (simp_all add: p'_def pulse_frame bounce_frame move_frame)
  moreover have "vx p' = (if x_p p' \<le> 0 \<or> x_p p' \<ge> width cv - 1 then vx q * (- 0.9) else vx q)"
    by (simp add: p'_def pulse_frame bounce_frame bounce_velocity move_frame)
  moreover have "vy p' = (if y_p p' < 0 \<or> y_p p' > height cv then vy q * (- 0.9) else vy q)"
    by (simp add: p'_def pulse_frame bounce_frame bounce_velocity move_frame)
  ultimately show ?thesis using q u by blast
qed

text \<open>
  The claim as stated, with the rule of \<open>x\<close> for \<open>y\<close>, fails on the edge itself: a
  particle that arrives at \<open>y = 0\<close> keeps its \<open>vy\<close>.
\<close>

theorem bounce_y_counterexample:
  "map_option vy (steer True mouse_init (1 / 2, 1 / 2) sinking) = Some (- (499 / 500))
   \<and> map_option y_p (update square True mouse_init (1 / 2, 1 / 2) sinking) = Some 0
   \<and> map_option vy (update square True mouse_init (1 / 2, 1 / 2) sinking) = Some (- (499 / 500))"
  by (simp add: update_def steer_def cursor_dist_def mouse_init_def sinking_def move_def
      bounce_def pulse_def fdiv_def Let_def square_def)

subsection \<open>The velocity of a new particle\<close>

text \<open>
  C8. The constructor calls \<open>Math.random()\<close> once inside \<open>Math.cos\<close> and once more
  inside \<open>Math.sin\<close>. With base speed 0.75, the first of the two numbers 0 and the
  second 0.25, both components of the velocity are 0.75: its length is not the base
  speed, and it is more than 0.8.
\<close>

theorem velocity_two_angles:
  "vx (new_Particle 0 0 False skew) = 3 / 4
   \<and> vy (new_Particle 0 0 False skew) = 3 / 4
   \<and> (vx (new_Particle 0 0 False skew))\<^sup>2 + (vy (new_Particle 0 0 False skew))\<^sup>2 = 9 / 8
   \<and> (8 / 10)\<^sup>2 < (vx (new_Particle 0 0 False skew))\<^sup>2 + (vy (new_Particle 0 0 False skew))\<^sup>2"
  by (simp add: new_Particle_def skew_def Let_def power2_eq_square)

subsection \<open>The grid\<close>

lemma grid_prefix:
  "foldl (grid_put ps) Map.empty [0..<k] =
     (\<lambda>key. if bucket_of ps k key = [] then None else Some (bucket_of ps k key))"
proof (induction k)
  case 0
  show ?case by (simp add: bucket_of_def)
next
  case (Suc k)
  have "foldl (grid_put ps) Map.empty [0..<Suc k] =
        grid_put ps (foldl (grid_put ps) Map.empty [0..<k]) k"
    by simp
  also have "\<dots> =
        grid_put ps (\<lambda>key. if bucket_of ps k key = [] then None else Some (bucket_of ps k key)) k"
    by (simp only: Suc)
  also have "\<dots> =
        (\<lambda>key. if bucket_of ps (Suc k) key = [] then None else Some (bucket_of ps (Suc k) key))"
    by (rule ext) (simp add: grid_put_def bucket_of_def Let_def)
  finally show ?case .
qed

lemma build_grid_bucket:
  "build_grid ps key =
     (if bucket_of ps (length ps) key = [] then None else Some (bucket_of ps (length ps) key))"
  by (simp add: build_grid_def grid_prefix)

lemma scan_cell_bucket:
  "scan_cell ps (build_grid ps) i =
     (\<lambda>key. concat (map (visit ps i) (bucket_of ps (length ps) key)))"
  by (rule ext) (simp add: scan_cell_def build_grid_bucket)

lemma scan_around_cells:
  "scan_around ps g i = concat (map (scan_cell ps g i) (cells_around (ps ! i)))"
  by (simp add: scan_around_def cells_around_def Let_def)

lemma distinct_cells_around: "distinct (cells_around p)"
  by (simp add: cells_around_def Let_def)

subsection \<open>The nine cells hold every particle in range, once\<close>

lemma mset_concat_filter_disj:
  assumes "\<And>x. \<not> (P x \<and> Q x)"
  shows "mset (concat (map f (filter P xs))) + mset (concat (map f (filter Q xs))) =
         mset (concat (map f (filter (\<lambda>x. P x \<or> Q x) xs)))"
  using assms by (induction xs) auto

lemma mset_concat_buckets:
  assumes "distinct cs"
  shows "mset (concat (map (\<lambda>c. concat (map f (filter (\<lambda>j. k j = c) xs))) cs)) =
         mset (concat (map f (filter (\<lambda>j. k j \<in> set cs) xs)))"
  using assms
proof (induction cs)
  case Nil
  show ?case by simp
next
  case (Cons c cs)
  have "mset (concat (map f (filter (\<lambda>j. k j = c) xs)))
        + mset (concat (map f (filter (\<lambda>j. k j \<in> set cs) xs)))
      = mset (concat (map f (filter (\<lambda>j. k j = c \<or> k j \<in> set cs) xs)))"
    using Cons.prems by (intro mset_concat_filter_disj) auto
  with Cons show ?case by simp
qed

lemma concat_filter_empty:
  assumes "\<And>x. x \<in> set xs \<Longrightarrow> \<not> P x \<Longrightarrow> f x = []"
  shows "concat (map f (filter P xs)) = concat (map f xs)"
  using assms by (induction xs) auto

lemma square_less_10000:
  fixes d e :: real
  assumes "d * d + e * e < 10000"
  shows "\<bar>d\<bar> < 100"
proof (rule ccontr)
  assume "\<not> \<bar>d\<bar> < 100"
  then have "100 \<le> \<bar>d\<bar>" by simp
  then have "100 * 100 \<le> \<bar>d\<bar> * \<bar>d\<bar>" by (intro mult_mono) simp_all
  then have "10000 \<le> d * d" by simp
  moreover have "0 \<le> e * e" by simp
  ultimately show False using assms by linarith
qed

lemma floor_near:
  fixes a b :: real
  assumes "\<bar>b - a\<bar> < 100"
  shows "\<lfloor>b / 120\<rfloor> = \<lfloor>a / 120\<rfloor> - 1 \<or> \<lfloor>b / 120\<rfloor> = \<lfloor>a / 120\<rfloor> \<or> \<lfloor>b / 120\<rfloor> = \<lfloor>a / 120\<rfloor> + 1"
proof -
  have "\<bar>b / 120 - a / 120\<bar> < 1" using assms by (simp add: abs_if split: if_splits)
  then show ?thesis by linarith
qed

lemma visit_near:
  assumes "visit ps i j \<noteq> []"
  shows "grid_key (ps ! j) \<in> set (cells_around (ps ! i))"
proof -
  let ?dx = "x_p (ps ! j) - x_p (ps ! i)" and ?dy = "y_p (ps ! j) - y_p (ps ! i)"
  from assms have d: "?dx * ?dx + ?dy * ?dy < 10000"
    by (simp add: visit_def Let_def split: if_splits)
  then have "\<bar>?dx\<bar> < 100" by (rule square_less_10000)
  moreover from d have "?dy * ?dy + ?dx * ?dx < 10000" by simp
  then have "\<bar>?dy\<bar> < 100" by (rule square_less_10000)
  ultimately show ?thesis
    using floor_near [of "x_p (ps ! j)" "x_p (ps ! i)"] floor_near [of "y_p (ps ! j)" "y_p (ps ! i)"]
    by (auto simp: cells_around_def grid_key_def gridSize_def Let_def)
qed

lemma scan_around_all:
  "mset (scan_around ps (build_grid ps) i) = mset (concat (map (visit ps i) [0..<length ps]))"
proof -
  let ?n = "length ps" and ?cs = "cells_around (ps ! i)"
  have "mset (scan_around ps (build_grid ps) i) =
        mset (concat (map (\<lambda>c. concat (map (visit ps i)
          (filter (\<lambda>j. grid_key (ps ! j) = c) [0..<?n]))) ?cs))"
    by (simp add: scan_around_cells scan_cell_bucket bucket_of_def)
  also have "\<dots> = mset (concat (map (visit ps i)
          (filter (\<lambda>j. grid_key (ps ! j) \<in> set ?cs) [0..<?n])))"
    by (rule mset_concat_buckets) (rule distinct_cells_around)
  also have "concat (map (visit ps i) (filter (\<lambda>j. grid_key (ps ! j) \<in> set ?cs) [0..<?n]))
      = concat (map (visit ps i) [0..<?n])"
    by (rule concat_filter_empty) (use visit_near in blast)
  finally show ?thesis .
qed

lemma visit_sq_dist:
  "visit ps i =
     (\<lambda>j. if i \<noteq> j
          then if sq_dist (ps ! i) (ps ! j) < 10000
               then [\<lparr>from_i = i, to_i = j,
                      stroke_alpha = 1 - sqrt (sq_dist (ps ! i) (ps ! j)) / 100\<rparr>]
               else []
          else [])"
  by (rule ext) (auto simp: visit_def sq_dist_def Let_def)

lemma naive_links_visit:
  "naive_links ps = concat (map (\<lambda>i. concat (map (visit ps i) [0..<length ps])) [0..<length ps])"
  by (simp add: naive_links_def visit_sq_dist)

lemma mset_concat_cong:
  assumes "\<And>x. x \<in> set xs \<Longrightarrow> mset (f x) = mset (g x)"
  shows "mset (concat (map f xs)) = mset (concat (map g xs))"
  using assms by (induction xs) auto

lemma connect_naive: "mset (connectParticles ps) = mset (naive_links ps)"
  unfolding connectParticles_def naive_links_visit Let_def
  by (rule mset_concat_cong) (rule scan_around_all)

subsection \<open>Counting strokes\<close>

lemma naive_links_set:
  "l \<in> set (naive_links ps) \<longleftrightarrow>
     from_i l < length ps \<and> to_i l < length ps \<and> from_i l \<noteq> to_i l
     \<and> sq_dist (ps ! from_i l) (ps ! to_i l) < 10000
     \<and> stroke_alpha l = 1 - sqrt (sq_dist (ps ! from_i l) (ps ! to_i l)) / 100"
  by (cases l) (auto simp: naive_links_def)

lemma sum_list_pick:
  "distinct xs \<Longrightarrow>
   sum_list (map (\<lambda>x. if x = a then c else (0::nat)) xs) = (if a \<in> set xs then c else 0)"
  by (induction xs) auto

lemma length_filter_concat_map:
  "length (filter P (concat (map f xs))) = sum_list (map (\<lambda>x. length (filter P (f x))) xs)"
  by (simp add: filter_concat length_concat comp_def)

lemma count_visit:
  "length (filter (\<lambda>l. from_i l = a \<and> to_i l = b) (visit ps i j)) =
     (if j = b then (if i = a \<and> a \<noteq> b \<and> sq_dist (ps ! a) (ps ! b) < 10000 then 1 else 0) else 0)"
  by (simp add: visit_sq_dist)

lemma count_row:
  "length (filter (\<lambda>l. from_i l = a \<and> to_i l = b) (concat (map (visit ps i) [0..<n]))) =
     (if i = a then (if b < n \<and> a \<noteq> b \<and> sq_dist (ps ! a) (ps ! b) < 10000 then 1 else 0) else 0)"
  by (simp add: length_filter_concat_map count_visit sum_list_pick)

lemma count_naive:
  "length (filter (\<lambda>l. from_i l = a \<and> to_i l = b) (naive_links ps)) =
     (if a < length ps \<and> b < length ps \<and> a \<noteq> b \<and> sq_dist (ps ! a) (ps ! b) < 10000
      then 1 else 0)"
  unfolding naive_links_visit
  by (simp add: length_filter_concat_map [where f = "\<lambda>i. concat (map (visit ps i) [0..<length ps])"]
      count_row sum_list_pick)

lemma length_filter_mset:
  assumes "mset xs = mset ys"
  shows "length (filter P xs) = length (filter P ys)"
proof -
  have "mset (filter P xs) = mset (filter P ys)"
    using assms by simp
  then show ?thesis by (rule mset_eq_length)
qed

lemma count_connect:
  "length (filter (\<lambda>l. from_i l = a \<and> to_i l = b) (connectParticles ps)) =
     (if a < length ps \<and> b < length ps \<and> a \<noteq> b \<and> sq_dist (ps ! a) (ps ! b) < 10000
      then 1 else 0)"
  using length_filter_mset [OF connect_naive] count_naive by simp

lemma sq_dist_sym: "sq_dist q p = sq_dist p q"
  by (simp add: sq_dist_def algebra_simps)

lemma length_filter_either:
  assumes "\<And>x. \<not> (P x \<and> Q x)"
  shows "length (filter (\<lambda>x. P x \<or> Q x) xs) = length (filter P xs) + length (filter Q xs)"
  using assms by (induction xs) auto

lemma count_joins:
  assumes "i < length ps" and "j < length ps" and "i \<noteq> j"
  shows "length (filter (joins i j) (connectParticles ps)) =
         (if sq_dist (ps ! i) (ps ! j) < 10000 then 2 else 0)"
proof -
  have "length (filter (joins i j) (connectParticles ps)) =
        length (filter (\<lambda>l. from_i l = i \<and> to_i l = j) (connectParticles ps))
        + length (filter (\<lambda>l. from_i l = j \<and> to_i l = i) (connectParticles ps))"
    unfolding joins_def using assms(3) by (intro length_filter_either) auto
  then show ?thesis
    using assms by (simp add: count_connect sq_dist_sym [of "ps ! j" "ps ! i"])
qed

lemma near_cells:
  assumes "sq_dist p q < 10000"
  shows "\<bar>fst (grid_key q) - fst (grid_key p)\<bar> \<le> 1 \<and> \<bar>snd (grid_key q) - snd (grid_key p)\<bar> \<le> 1"
proof -
  let ?dx = "x_p q - x_p p" and ?dy = "y_p q - y_p p"
  from assms have d: "?dx * ?dx + ?dy * ?dy < 10000"
    by (simp add: sq_dist_def)
  then have "\<bar>?dx\<bar> < 100" by (rule square_less_10000)
  moreover from d have "?dy * ?dy + ?dx * ?dx < 10000" by simp
  then have "\<bar>?dy\<bar> < 100" by (rule square_less_10000)
  ultimately show ?thesis
    using floor_near [of "x_p q" "x_p p"] floor_near [of "y_p q" "y_p p"]
    by (auto simp: grid_key_def gridSize_def)
qed

lemma connect_two_near:
  "connectParticles two_near =
     [\<lparr>from_i = 0, to_i = 1, stroke_alpha = 1 / 2\<rparr>, \<lparr>from_i = 1, to_i = 0, stroke_alpha = 1 / 2\<rparr>]"
  by (simp add: connectParticles_def build_grid_def grid_put_def grid_key_def gridSize_def
      scan_around_def scan_cell_def visit_def at_rest_def two_near_def upt_rec Let_def)

lemma connect_two_far: "connectParticles two_far = []"
  by (simp add: connectParticles_def build_grid_def grid_put_def grid_key_def gridSize_def
      scan_around_def scan_cell_def visit_def at_rest_def two_far_def upt_rec Let_def)

subsection \<open>The linker\<close>

text \<open>
  C2. The strokes of the grid scan are those of the scan of all pairs, each as often:
  the two lists are equal as multisets (their orders differ). For two different
  particles of the array, the scan draws two strokes between them when their squared
  distance is below 10000, one from each end, and none otherwise. Two particles at a
  squared distance below 10000 lie in cells whose coordinates differ by at most 1 on
  each axis.
\<close>

theorem grid_scan_is_all_pairs_scan:
  "mset (connectParticles ps) = mset (naive_links ps)
   \<and> (i < length ps \<and> j < length ps \<and> i \<noteq> j \<longrightarrow>
        length (filter (joins i j) (connectParticles ps)) =
          (if sq_dist (ps ! i) (ps ! j) < 10000 then 2 else 0)
        \<and> length (filter (\<lambda>l. from_i l = i \<and> to_i l = j) (connectParticles ps)) =
          (if sq_dist (ps ! i) (ps ! j) < 10000 then 1 else 0)
        \<and> length (filter (\<lambda>l. from_i l = j \<and> to_i l = i) (connectParticles ps)) =
          (if sq_dist (ps ! i) (ps ! j) < 10000 then 1 else 0))
   \<and> (sq_dist (ps ! i) (ps ! j) < 10000 \<longrightarrow>
        \<bar>fst (grid_key (ps ! j)) - fst (grid_key (ps ! i))\<bar> \<le> 1
        \<and> \<bar>snd (grid_key (ps ! j)) - snd (grid_key (ps ! i))\<bar> \<le> 1)"
  using connect_naive [of ps] count_joins [of i ps j] near_cells [of "ps ! i" "ps ! j"]
  by (simp add: count_connect sq_dist_sym [of "ps ! j" "ps ! i"])

theorem grid_scan_is_all_pairs_scan_witness:
  "(0::nat) < length two_near \<and> (1::nat) < length two_near \<and> (0::nat) \<noteq> 1
   \<and> sq_dist (two_near ! 0) (two_near ! 1) < 10000
   \<and> length (filter (joins 0 1) (connectParticles two_near)) = 2
   \<and> \<bar>fst (grid_key (two_near ! 1)) - fst (grid_key (two_near ! 0))\<bar> \<le> 1"
proof -
  have a: "0 < length two_near" "1 < length two_near"
    and b: "sq_dist (two_near ! 0) (two_near ! 1) < 10000"
    by (simp_all add: two_near_def at_rest_def sq_dist_def)
  from grid_scan_is_all_pairs_scan [of two_near 0 1] a b show ?thesis by simp
qed

text \<open>
  C3. A stroke is drawn exactly for the ordered pairs of two different particles at a
  squared distance below 10000, every pair the scan examines or not, and its opacity is
  \<open>1 - sqrt dist / 100\<close>. Particles at (0, 0) and (50, 0) are joined with opacity 0.5,
  from either end; particles at (0, 0) and (150, 0) are not joined.
\<close>

theorem link_drawn_iff_near:
  "(l \<in> set (connectParticles ps) \<longleftrightarrow>
      from_i l < length ps \<and> to_i l < length ps \<and> from_i l \<noteq> to_i l
      \<and> sq_dist (ps ! from_i l) (ps ! to_i l) < 10000
      \<and> stroke_alpha l = 1 - sqrt (sq_dist (ps ! from_i l) (ps ! to_i l)) / 100)
   \<and> connectParticles [at_rest 0 0, at_rest 50 0] =
       [\<lparr>from_i = 0, to_i = 1, stroke_alpha = 1 / 2\<rparr>, \<lparr>from_i = 1, to_i = 0, stroke_alpha = 1 / 2\<rparr>]
   \<and> connectParticles [at_rest 0 0, at_rest 150 0] = []"
proof -
  have "set (connectParticles ps) = set (naive_links ps)"
    using connect_naive [of ps] by (rule mset_eq_setD)
  then show ?thesis
    using connect_two_near connect_two_far
    by (simp add: naive_links_set two_near_def two_far_def)
qed

end
